theory Spec2Isabelle
  imports Main "HOL-Library.Word"
begin

section \<open>Python values used by \<^verbatim>\<open>day1/main.py\<close>\<close>

text \<open>
  A Python \<^verbatim>\<open>str\<close> is a sequence of Unicode code points, and the fixed replies of
  the handler contain U+2019, so a string is a list of code points and not a list of
  8-bit characters. \<open>str\<close> turns an ASCII literal into such a list.
\<close>

type_synonym pystr = "nat list"

type_synonym bytes = "8 word list"

definition str :: "string \<Rightarrow> pystr" where
  "str s = map of_char s"

definition nl :: pystr where
  "nl = [10]"

datatype error = AttributeError | TypeError | ValueError | KeyError | ServiceError

text \<open>The values a variable of the handler can hold where a string is expected.\<close>

datatype pyval = PNone | PStr pystr

fun truthy :: "pyval \<Rightarrow> bool" where
  "truthy PNone = False"
| "truthy (PStr s) = (s \<noteq> [])"

text \<open>
  \<^verbatim>\<open>str.isspace\<close> for one code point: the ASCII whitespace 0x09-0x0D, 0x1C-0x1F, 0x20
  and the Unicode whitespace 0x85, 0xA0, 0x1680, 0x2000-0x200A, 0x2028, 0x2029, 0x202F,
  0x205F, 0x3000.
\<close>

definition isspace :: "nat \<Rightarrow> bool" where
  "isspace c \<longleftrightarrow>
     (9 \<le> c \<and> c \<le> 13) \<or> (28 \<le> c \<and> c \<le> 32) \<or> c = 133 \<or> c = 160 \<or> c = 5760 \<or>
     (8192 \<le> c \<and> c \<le> 8202) \<or> c = 8232 \<or> c = 8233 \<or> c = 8239 \<or> c = 8287 \<or> c = 12288"

definition lstrip :: "pystr \<Rightarrow> pystr" where
  "lstrip s = dropWhile isspace s"

definition rstrip :: "pystr \<Rightarrow> pystr" where
  "rstrip s = rev (dropWhile isspace (rev s))"

text \<open>\<^verbatim>\<open>s.strip()\<close>: the left index moves right over whitespace, then the right index
  moves left over whitespace.\<close>

definition strip :: "pystr \<Rightarrow> pystr" where
  "strip s = rstrip (lstrip s)"

text \<open>\<^verbatim>\<open>v.strip()\<close> on a value that may be \<^verbatim>\<open>None\<close>, which has no such attribute.\<close>

fun py_strip :: "pyval \<Rightarrow> error + pystr" where
  "py_strip PNone = Inl AttributeError"
| "py_strip (PStr s) = Inr (strip s)"

definition startswith :: "pystr \<Rightarrow> pystr \<Rightarrow> bool" where
  "startswith s p \<longleftrightarrow> take (length p) s = p"

text \<open>\<^verbatim>\<open>sep.join(xs)\<close>\<close>

fun join :: "pystr \<Rightarrow> pystr list \<Rightarrow> pystr" where
  "join sep [] = []"
| "join sep [x] = x"
| "join sep (x # y # ys) = x @ sep @ join sep (y # ys)"

section \<open>Response chunker\<close>

text \<open>
  \<^verbatim>\<open>range(0, n, step)\<close>: a zero step raises \<^verbatim>\<open>ValueError\<close>, a negative step gives the
  empty range (\<open>n\<close> is a length), a positive step gives \<open>0, step, 2 * step, ...\<close> below \<open>n\<close>.
\<close>

definition range_len :: "nat \<Rightarrow> nat \<Rightarrow> nat" where
  "range_len n step = (n + step - 1) div step"

definition py_range :: "nat \<Rightarrow> int \<Rightarrow> error + nat list" where
  "py_range n step =
     (if step = 0 then Inl ValueError
      else if step < 0 then Inr []
      else Inr (map (\<lambda>k. k * nat step) [0..<range_len n (nat step)]))"

text \<open>\<^verbatim>\<open>text[i:j]\<close> for \<open>0 \<le> i \<le> j\<close>; the slice is clipped at the end of the text.\<close>

definition py_slice :: "'a list \<Rightarrow> nat \<Rightarrow> nat \<Rightarrow> 'a list" where
  "py_slice xs i j = take (j - i) (drop i xs)"

text \<open>
  \<^verbatim>\<open>def chunk_text(text, max_len=3000):
      return [text[i:i+max_len] for i in range(0, len(text), max_len)]\<close>
\<close>

definition chunk_text :: "pystr \<Rightarrow> int \<Rightarrow> error + pystr list" where
  "chunk_text txt max_len =
     (case py_range (length txt) max_len of
        Inl e \<Rightarrow> Inl e
      | Inr is \<Rightarrow> Inr (map (\<lambda>i. py_slice txt i (i + nat max_len)) is))"

text \<open>\<^verbatim>\<open>chunk_text(gemini_text)\<close> with the default \<open>max_len\<close>; \<^verbatim>\<open>len(None)\<close> raises.\<close>

fun py_chunk_text :: "pyval \<Rightarrow> error + pystr list" where
  "py_chunk_text PNone = Inl TypeError"
| "py_chunk_text (PStr s) = chunk_text s 3000"

section \<open>Session store\<close>

record turn =
  role :: pystr
  content :: pystr

text \<open>
  The process-wide state: the dictionary \<^verbatim>\<open>chat_histories\<close>, and the calls made so far to
  the language model (the prompts) and to the speech synthesiser (the chunks), in the
  order they were issued.
\<close>

record world =
  chat_histories :: "pystr \<rightharpoonup> turn list"
  llm_calls :: "pystr list"
  tts_calls :: "pystr list"

text \<open>
  \<^verbatim>\<open>def append_to_history(session_id, role, content):
      if session_id not in chat_histories:
          chat_histories[session_id] = []
      chat_histories[session_id].append({"role": role, "content": content.strip()})\<close>
  The session is created before \<^verbatim>\<open>content.strip()\<close> is evaluated, so it stays created
  when that raises.
\<close>

definition append_to_history :: "pystr \<Rightarrow> pystr \<Rightarrow> pyval \<Rightarrow> world \<Rightarrow> (error + unit) \<times> world" where
  "append_to_history session_id r c w =
     (let hs = (if chat_histories w session_id = None
                then (chat_histories w)(session_id \<mapsto> [])
                else chat_histories w)
      in case hs session_id of
           None \<Rightarrow> (Inl KeyError, w\<lparr>chat_histories := hs\<rparr>)
         | Some h \<Rightarrow>
             (case py_strip c of
                Inl e \<Rightarrow> (Inl e, w\<lparr>chat_histories := hs\<rparr>)
              | Inr s \<Rightarrow>
                  (Inr (), w\<lparr>chat_histories := hs(session_id \<mapsto> h @ [\<lparr>role = r, content = s\<rparr>])\<rparr>)))"

text \<open>\<^verbatim>\<open>chat_histories.get(session_id, [])\<close>\<close>

definition get_chat_history :: "pystr \<Rightarrow> world \<Rightarrow> turn list" where
  "get_chat_history session_id w =
     (case chat_histories w session_id of None \<Rightarrow> [] | Some h \<Rightarrow> h)"

text \<open>A sequence of appends, each with a string as content, run in order.\<close>

fun append_all :: "(pystr \<times> pystr \<times> pystr) list \<Rightarrow> world \<Rightarrow> world" where
  "append_all [] w = w"
| "append_all ((sid, r, c) # ops) w = append_all ops (snd (append_to_history sid r (PStr c) w))"

definition empty_world :: world where
  "empty_world = \<lparr>chat_histories = Map.empty, llm_calls = [], tts_calls = []\<rparr>"

section \<open>Requests\<close>

text \<open>
  What the handler reads from a request: the \<^verbatim>\<open>content-type\<close> header if present, and the
  outcome of parsing the body as a form (\<^verbatim>\<open>await request.form()\<close>) or as JSON
  (\<^verbatim>\<open>await request.json()\<close>). A form field is a string or an uploaded file, which has a
  \<^verbatim>\<open>filename\<close> and whose \<^verbatim>\<open>read()\<close> gives bytes or raises.
\<close>

datatype form_value = FormStr pystr | FormUpload "error + bytes"

datatype json = JNull | JBool bool | JNum int | JStr pystr | JArr "json list" | JObj "(pystr \<times> json) list"

record request =
  content_type_header :: "pystr option"
  form_body :: "error + (pystr \<rightharpoonup> form_value)"
  json_body :: "error + json"

text \<open>\<^verbatim>\<open>body.get("text", "")\<close>: only a JSON object has \<^verbatim>\<open>get\<close>.\<close>

fun body_get_text :: "json \<Rightarrow> error + json" where
  "body_get_text (JObj kvs) =
     Inr (case map_of kvs (str ''text'') of None \<Rightarrow> JStr [] | Some v \<Rightarrow> v)"
| "body_get_text _ = Inl AttributeError"

text \<open>\<^verbatim>\<open>.strip()\<close> on a JSON value: only a string has it.\<close>

fun json_strip :: "json \<Rightarrow> error + pystr" where
  "json_strip (JStr s) = Inr (strip s)"
| "json_strip _ = Inl AttributeError"

text \<open>
  \<^verbatim>\<open>if "file" in form and hasattr(form["file"], "filename"):
      file_bytes = await upload_file.read()\<close>
\<close>

definition read_file_field :: "(pystr \<rightharpoonup> form_value) \<Rightarrow> error + bytes option" where
  "read_file_field form =
     (case form (str ''file'') of
        Some (FormUpload r) \<Rightarrow> (case r of Inl e \<Rightarrow> Inl e | Inr b \<Rightarrow> Inr (Some b))
      | _ \<Rightarrow> Inr None)"

text \<open>
  The first \<^verbatim>\<open>try\<close> block of the handler: it yields \<open>(file_bytes, input_text)\<close>. An
  exception anywhere in the block resets \<open>input_text\<close> to \<^verbatim>\<open>None\<close> and leaves
  \<open>file_bytes\<close> as it was when the exception was raised.
\<close>

definition resolve_input :: "request \<Rightarrow> bytes option \<times> pyval" where
  "resolve_input req =
     (let content_type = (case content_type_header req of None \<Rightarrow> [] | Some v \<Rightarrow> v) in
      if startswith content_type (str ''multipart/form-data'') then
        (case form_body req of
           Inl e \<Rightarrow> (None, PNone)
         | Inr form \<Rightarrow>
             (case read_file_field form of
                Inl e \<Rightarrow> (None, PNone)
              | Inr file_bytes \<Rightarrow>
                  (case form (str ''text'') of
                     None \<Rightarrow> (file_bytes, PNone)
                   | Some (FormStr s) \<Rightarrow> (file_bytes, PStr (strip s))
                   | Some (FormUpload r) \<Rightarrow> (file_bytes, PNone))))
      else if startswith content_type (str ''application/json'') then
        (case json_body req of
           Inl e \<Rightarrow> (None, PNone)
         | Inr body \<Rightarrow>
             (case body_get_text body of
                Inl e \<Rightarrow> (None, PNone)
              | Inr v \<Rightarrow>
                  (case json_strip v of
                     Inl e \<Rightarrow> (None, PNone)
                   | Inr s \<Rightarrow> (None, PStr s))))
      else (None, PNone))"

section \<open>External collaborators\<close>

text \<open>
  The result of reading an attribute: the object has none, it has one with a value, or
  reading it raises (a property).
\<close>

datatype 'a attr = Absent | Present 'a | Raising error

text \<open>\<^verbatim>\<open>getattr(obj, name, default)\<close> gives the default on \<^verbatim>\<open>AttributeError\<close> only.\<close>

definition getattr_default :: "'a attr \<Rightarrow> 'a \<Rightarrow> error + 'a" where
  "getattr_default a d =
     (case a of
        Present v \<Rightarrow> Inr v
      | Absent \<Rightarrow> Inr d
      | Raising e \<Rightarrow> if e = AttributeError then Inr d else Inl e)"

text \<open>
  What the handler reads of the language model's response: its \<^verbatim>\<open>text\<close> attribute, and
  the \<^verbatim>\<open>text\<close> attribute of \<^verbatim>\<open>candidates[0].content.parts[0]\<close>, where reaching that
  part may itself raise.
\<close>

record llm_response =
  resp_text :: "pyval attr"
  first_part :: "error + pyval attr"

text \<open>
  The three services. \<open>transcribe\<close> gives \<^verbatim>\<open>transcriber.transcribe(b).text\<close> or raises;
  \<open>generate_content\<close> gives the model's response to a prompt or raises; \<open>tts_generate\<close>
  gives the \<^verbatim>\<open>audio_file\<close> of the synthesis of a chunk or raises, and may answer
  differently at each call of one request, so it also takes the number of the call.
\<close>

record env =
  transcribe :: "bytes \<Rightarrow> error + pyval"
  generate_content :: "pystr \<Rightarrow> error + llm_response"
  tts_generate :: "nat \<Rightarrow> pystr \<Rightarrow> error + pystr"

section \<open>The handler of \<^verbatim>\<open>POST /agent/chat/{session_id}\<close>\<close>

record response =
  success :: bool
  gemini_text :: pyval
  audio_urls :: "pystr list"
  history :: "turn list"

definition audio_failed_text :: pystr where
  "audio_failed_text = str ''Sorry, I couldn'' @ [8217] @ str ''t process the audio.''"

definition no_input_text :: pystr where
  "no_input_text = str ''I didn'' @ [8217] @ str ''t catch anything. Can you try again?''"

definition fallback_text :: pystr where
  "fallback_text = str ''I had trouble thinking of a reply, but let'' @ [39] @ str ''s keep going.''"

definition unexpected_text :: pystr where
  "unexpected_text = str ''Something unexpected happened, but I'' @ [8217] @ str ''m still here!''"

definition persona_text :: pystr where
  "persona_text = nl @ str ''You are a friendly AI voice assistant.'' @ nl @
     str ''Continue the conversation naturally based on the following history:'' @ nl @ nl"

definition cue_text :: pystr where
  "cue_text = nl @ nl @ str ''Assistant:'' @ nl"

text \<open>\<^verbatim>\<open>f"{'User' if msg['role']=='user' else 'Assistant'}: {msg['content']}"\<close>\<close>

definition render_turn :: "turn \<Rightarrow> pystr" where
  "render_turn msg =
     (if role msg = str ''user'' then str ''User'' else str ''Assistant'') @ str '': '' @ content msg"

definition build_prompt :: "turn list \<Rightarrow> pystr" where
  "build_prompt h = persona_text @ join nl (map render_turn h) @ cue_text"

text \<open>
  \<^verbatim>\<open>getattr(llm_response, "text", None) or
    getattr(llm_response.candidates[0].content.parts[0], "text", "No response.")\<close>
\<close>

definition extract_text :: "llm_response \<Rightarrow> error + pyval" where
  "extract_text r =
     (case getattr_default (resp_text r) PNone of
        Inl e \<Rightarrow> Inl e
      | Inr v \<Rightarrow>
          if truthy v then Inr v
          else (case first_part r of
                  Inl e \<Rightarrow> Inl e
                | Inr a \<Rightarrow> getattr_default a (PStr (str ''No response.''))))"

text \<open>The speech-to-text block: an early return is \<open>Inl\<close> of the response.\<close>

definition stt_step :: "env \<Rightarrow> pystr \<Rightarrow> bytes option \<Rightarrow> pyval \<Rightarrow> world \<Rightarrow> response + pyval" where
  "stt_step ev session_id file_bytes input_text w =
     (case file_bytes of
        None \<Rightarrow> Inr input_text
      | Some b \<Rightarrow>
          if b = [] then Inr input_text
          else (case transcribe ev b of
                  Inl e \<Rightarrow>
                    Inl \<lparr>success = True, gemini_text = PStr audio_failed_text, audio_urls = [],
                         history = get_chat_history session_id w\<rparr>
                | Inr v \<Rightarrow> Inr v))"

text \<open>The language-model block: any exception in it gives the fallback reply.\<close>

definition llm_step :: "env \<Rightarrow> pystr \<Rightarrow> world \<Rightarrow> pyval \<times> world" where
  "llm_step ev session_id w =
     (let prompt = build_prompt (get_chat_history session_id w);
          w1 = w\<lparr>llm_calls := llm_calls w @ [prompt]\<rparr>
      in case generate_content ev prompt of
           Inl e \<Rightarrow> (PStr fallback_text, w1)
         | Inr r \<Rightarrow>
             (case extract_text r of
                Inl e \<Rightarrow> (PStr fallback_text, w1)
              | Inr v \<Rightarrow> (v, w1)))"

text \<open>The synthesis loop: one call per chunk, in order, stopping at the first exception.\<close>

fun tts_loop :: "env \<Rightarrow> nat \<Rightarrow> pystr list \<Rightarrow> pystr list \<Rightarrow> world \<Rightarrow> (error + pystr list) \<times> world" where
  "tts_loop ev k [] urls w = (Inr urls, w)"
| "tts_loop ev k (c # cs) urls w =
     (let w1 = w\<lparr>tts_calls := tts_calls w @ [c]\<rparr>
      in case tts_generate ev k c of
           Inl e \<Rightarrow> (Inl e, w1)
         | Inr u \<Rightarrow> tts_loop ev (Suc k) cs (urls @ [u]) w1)"

text \<open>The synthesis block: any exception in it empties \<open>audio_urls\<close>.\<close>

definition tts_step :: "env \<Rightarrow> pyval \<Rightarrow> world \<Rightarrow> pystr list \<times> world" where
  "tts_step ev g w =
     (case py_chunk_text g of
        Inl e \<Rightarrow> ([], w)
      | Inr chunks \<Rightarrow>
          (case tts_loop ev 0 chunks [] w of
             (Inl e, w1) \<Rightarrow> ([], w1)
           | (Inr urls, w1) \<Rightarrow> (urls, w1)))"

text \<open>
  The input and speech-to-text blocks together: the text of the turn, or the early return
  of the speech-to-text block.
\<close>

definition resolve_text :: "env \<Rightarrow> pystr \<Rightarrow> request \<Rightarrow> world \<Rightarrow> response + pyval" where
  "resolve_text ev session_id req w =
     (case resolve_input req of
        (file_bytes, input_text) \<Rightarrow> stt_step ev session_id file_bytes input_text w)"

text \<open>The body of the outer \<^verbatim>\<open>try\<close>: \<open>Inl\<close> is an exception that reaches the outer handler.\<close>

definition agent_chat_body :: "env \<Rightarrow> pystr \<Rightarrow> request \<Rightarrow> world \<Rightarrow> (error + response) \<times> world" where
  "agent_chat_body ev session_id req w =
     (case resolve_text ev session_id req w of
        Inl resp \<Rightarrow> (Inr resp, w)
      | Inr input_text \<Rightarrow>
          if \<not> truthy input_text then
            (Inr \<lparr>success = True, gemini_text = PStr no_input_text, audio_urls = [],
                  history = get_chat_history session_id w\<rparr>, w)
          else
            (case append_to_history session_id (str ''user'') input_text w of
               (Inl e, w1) \<Rightarrow> (Inl e, w1)
             | (Inr u, w1) \<Rightarrow>
                 (case llm_step ev session_id w1 of
                    (g, w2) \<Rightarrow>
                      (case append_to_history session_id (str ''assistant'') g w2 of
                         (Inl e, w3) \<Rightarrow> (Inl e, w3)
                       | (Inr u, w3) \<Rightarrow>
                           (case tts_step ev g w3 of
                              (urls, w4) \<Rightarrow>
                                (Inr \<lparr>success = True, gemini_text = g, audio_urls = urls,
                                      history = get_chat_history session_id w4\<rparr>, w4))))))"

text \<open>The handler: the outer \<^verbatim>\<open>except Exception\<close> turns an exception into a response.\<close>

definition agent_chat :: "env \<Rightarrow> pystr \<Rightarrow> request \<Rightarrow> world \<Rightarrow> (error + response) \<times> world" where
  "agent_chat ev session_id req w =
     (case agent_chat_body ev session_id req w of
        (Inl e, w1) \<Rightarrow>
          (Inr \<lparr>success = True, gemini_text = PStr unexpected_text, audio_urls = [],
                history = get_chat_history session_id w1\<rparr>, w1)
      | (Inr resp, w1) \<Rightarrow> (Inr resp, w1))"


section \<open>Example requests and services\<close>

text \<open>A request with a JSON body, and a form request that uploads the bytes \<open>b\<close> as \<^verbatim>\<open>file\<close>.\<close>

definition json_request :: "json \<Rightarrow> request" where
  "json_request body =
     \<lparr>content_type_header = Some (str ''application/json''),
      form_body = Inl ValueError, json_body = Inr body\<rparr>"

definition audio_request :: "bytes \<Rightarrow> request" where
  "audio_request b =
     \<lparr>content_type_header = Some (str ''multipart/form-data; boundary=x''),
      form_body = Inr [str ''file'' \<mapsto> FormUpload (Inr b)], json_body = Inl ValueError\<rparr>"

text \<open>
  Services with fixed outcomes: the transcriber and the language model always answer
  \<open>stt\<close> and \<open>llm\<close>, and the synthesiser succeeds on its first \<open>n\<close> calls and fails after.
\<close>

definition test_env :: "error + pyval \<Rightarrow> error + llm_response \<Rightarrow> nat \<Rightarrow> env" where
  "test_env stt llm n =
     \<lparr>transcribe = (\<lambda>b. stt), generate_content = (\<lambda>p. llm),
      tts_generate = (\<lambda>k c. if k < n then Inr (str ''audio'' @ [48 + k]) else Inl ServiceError)\<rparr>"

definition text_reply :: "pystr \<Rightarrow> error + llm_response" where
  "text_reply g = Inr \<lparr>resp_text = Present (PStr g), first_part = Inl ServiceError\<rparr>"

section \<open>Properties of the response chunker\<close>

lemma range_len_0: "range_len 0 m = 0"
  by (cases m) (simp_all add: range_len_def)

lemma range_len_step: "0 < m \<Longrightarrow> 0 < n \<Longrightarrow> range_len n m = Suc (range_len (n - m) m)"
proof -
  assume m: "0 < m" and n: "0 < n"
  show ?thesis
  proof (cases "n \<le> m")
    case True
    have "(n + m - 1) div m = 1"
    proof (rule div_nat_eqI)
      show "m * 1 \<le> n + m - 1" using n by simp
      show "n + m - 1 < m * Suc 1" using True m by simp
    qed
    then have "range_len n m = 1" by (simp add: range_len_def)
    moreover have "range_len (n - m) m = 0" using True by (simp add: range_len_0)
    ultimately show ?thesis by simp
  next
    case False
    then have "n + m - 1 = (n - m + m - 1) + m" using m by simp
    moreover have "((n - m + m - 1) + m) div m = (n - m + m - 1) div m + 1"
      using m by (intro div_add_self2) simp
    ultimately have "(n + m - 1) div m = Suc ((n - m + m - 1) div m)" by simp
    then show ?thesis unfolding range_len_def .
  qed
qed


lemma slices_rec:
  "map (\<lambda>k. take m (drop (k * m) xs)) [0..<Suc c] =
   take m xs # map (\<lambda>k. take m (drop (k * m) (drop m xs))) [0..<c]"
proof -
  have "[0..<Suc c] = 0 # map Suc [0..<c]"
    by (simp only: upt_conv_Cons [of 0 "Suc c"] zero_less_Suc map_Suc_upt)
  then have "map (\<lambda>k. take m (drop (k * m) xs)) [0..<Suc c] =
     take m (drop (0 * m) xs) # map ((\<lambda>k. take m (drop (k * m) xs)) \<circ> Suc) [0..<c]"
    by (simp only: list.map map_map)
  moreover have "(\<lambda>k. take m (drop (k * m) xs)) \<circ> Suc = (\<lambda>k. take m (drop (k * m) (drop m xs)))"
    by (rule ext) (simp add: add.commute)
  ultimately show ?thesis by simp
qed

lemma concat_slices:
  "0 < m \<Longrightarrow> concat (map (\<lambda>k. take m (drop (k * m) xs)) [0..<range_len (length xs) m]) = xs"
proof (induction xs rule: length_induct)
  case (1 xs)
  show ?case
  proof (cases "xs = []")
    case True
    then show ?thesis by (simp add: range_len_0)
  next
    case False
    then have len: "range_len (length xs) m = Suc (range_len (length (drop m xs)) m)"
      using "1.prems" range_len_step [of m "length xs"] by simp
    have "length (drop m xs) < length xs" using False "1.prems" by simp
    then have "concat (map (\<lambda>k. take m (drop (k * m) (drop m xs))) [0..<range_len (length (drop m xs)) m]) = drop m xs"
      using "1.IH" "1.prems" by blast
    then show ?thesis
      unfolding len slices_rec by simp
  qed
qed


lemma chunk_text_pos:
  "0 < m \<Longrightarrow> chunk_text t (int m) = Inr (map (\<lambda>k. take m (drop (k * m) t)) [0..<range_len (length t) m])"
  by (simp add: chunk_text_def py_range_def py_slice_def o_def)

lemma chunk_text_3000:
  "chunk_text t 3000 = Inr (map (\<lambda>k. take 3000 (drop (k * 3000) t)) [0..<range_len (length t) 3000])"
  using chunk_text_pos [of 3000 t] by simp


lemma range_len_bound: "0 < m \<Longrightarrow> k < range_len n m \<Longrightarrow> k * m < n"
proof -
  assume m: "0 < m" and k: "k < range_len n m"
  then have "Suc k \<le> (n + m - 1) div m" by (simp add: range_len_def)
  then have "Suc k * m \<le> n + m - 1" using m by (simp only: less_eq_div_iff_mult_less_eq)
  then show ?thesis using m by simp
qed

text \<open>
  Claim C1. For every text \<open>T\<close>, \<open>chunk_text T\<close> with the default \<open>max_len\<close> of 3000 returns
  normally; the chunks concatenate to exactly \<open>T\<close>; there are \<open>\<lceil>length T / 3000\<rceil>\<close> of them; the
  \<open>k\<close>-th chunk is the slice of \<open>T\<close> that starts at \<open>3000 * k\<close> and is at most 3000 long, so the
  chunks are contiguous, in order and do not overlap; each is non-empty and at most 3000 long;
  and the empty text gives the empty list. The result is a function of \<open>T\<close> alone.
\<close>

theorem chunk_text_lossless:
  "\<exists>cs. chunk_text T 3000 = Inr cs \<and> concat cs = T \<and>
        length cs = (length T + 2999) div 3000 \<and>
        (\<forall>k < length cs. cs ! k = take 3000 (drop (k * 3000) T) \<and>
                          cs ! k \<noteq> [] \<and> length (cs ! k) \<le> 3000) \<and>
        (T = [] \<longrightarrow> cs = [])"
proof -
  let ?cs = "map (\<lambda>k. take 3000 (drop (k * 3000) T)) [0..<range_len (length T) 3000]"
  have c: "chunk_text T 3000 = Inr ?cs"
    by (rule chunk_text_3000)
  have 1: "concat ?cs = T" by (rule concat_slices) simp
  have 2: "length ?cs = (length T + 2999) div 3000" by (simp add: range_len_def)
  have 3: "\<forall>k < length ?cs. ?cs ! k = take 3000 (drop (k * 3000) T) \<and> ?cs ! k \<noteq> [] \<and> length (?cs ! k) \<le> 3000"
  proof (intro allI impI)
    fix k assume "k < length ?cs"
    then have k: "k < range_len (length T) 3000" by simp
    then have "k * 3000 < length T" by (rule range_len_bound [rotated]) simp
    then show "?cs ! k = take 3000 (drop (k * 3000) T) \<and> ?cs ! k \<noteq> [] \<and> length (?cs ! k) \<le> 3000"
      using k by simp
  qed
  have 4: "T = [] \<longrightarrow> ?cs = []" by (simp add: range_len_0)
  show ?thesis using c 1 2 3 4 by blast
qed

text \<open>Claim C1 at the text \<^verbatim>\<open>"hello"\<close>, whose only chunk is the text itself.\<close>

theorem chunk_text_lossless_witness:
  "chunk_text (str ''hello'') 3000 = Inr [str ''hello''] \<and>
   (\<exists>cs. chunk_text (str ''hello'') 3000 = Inr cs \<and> concat cs = str ''hello'' \<and>
        length cs = (length (str ''hello'') + 2999) div 3000 \<and>
        (\<forall>k < length cs. cs ! k = take 3000 (drop (k * 3000) (str ''hello'')) \<and>
                          cs ! k \<noteq> [] \<and> length (cs ! k) \<le> 3000) \<and>
        (str ''hello'' = [] \<longrightarrow> cs = []))"
proof -
  have e: "chunk_text (str ''hello'') 3000 = Inr [str ''hello'']"
    by (simp add: chunk_text_def py_range_def py_slice_def range_len_def str_def)
  show ?thesis by (rule conjI [OF e chunk_text_lossless])
qed

lemma chunk_text_one:
  "T \<noteq> [] \<Longrightarrow> length T \<le> 3000 \<Longrightarrow> chunk_text T 3000 = Inr [T]"
proof -
  assume ne: "T \<noteq> []" and le: "length T \<le> 3000"
  have "range_len (length T) 3000 = Suc (range_len (length T - 3000) 3000)"
    using ne by (intro range_len_step) simp_all
  then have r: "range_len (length T) 3000 = Suc 0" using le by (simp add: range_len_0)
  have "chunk_text T 3000 = Inr (map (\<lambda>k. take 3000 (drop (k * 3000) T)) [0..<Suc 0])"
    unfolding r [symmetric] by (rule chunk_text_3000)
  moreover have "take 3000 T = T" using le by (rule take_all)
  ultimately show ?thesis by simp
qed

text \<open>
  Claim C9, amended. For every non-empty text \<open>T\<close> of at most 3000 characters,
  \<open>chunk_text T\<close> is the one-element list holding \<open>T\<close>.
\<close>

theorem chunk_text_short:
  "T \<noteq> [] \<Longrightarrow> length T \<le> 3000 \<Longrightarrow> chunk_text T 3000 = Inr [T]"
  by (rule chunk_text_one)

text \<open>Claim C9, amended, at the text \<^verbatim>\<open>"ok"\<close>.\<close>

theorem chunk_text_short_witness:
  "str ''ok'' \<noteq> [] \<and> length (str ''ok'') \<le> 3000 \<and> chunk_text (str ''ok'') 3000 = Inr [str ''ok'']"
proof -
  have 1: "str ''ok'' \<noteq> []" by (simp add: str_def)
  have 2: "length (str ''ok'') \<le> 3000" by (simp add: str_def)
  show ?thesis using 1 2 chunk_text_short [OF 1 2] by simp
qed

text \<open>
  Claim C9 as stated fails at the empty text: its length is at most 3000, and
  \<open>chunk_text\<close> gives the empty list, not a list holding the empty text.
\<close>

theorem chunk_text_single_counterexample:
  "\<not> (length ([] :: pystr) \<le> 3000 \<longrightarrow> chunk_text [] 3000 = Inr [[]])"
  by (simp add: chunk_text_def py_range_def range_len_def)

section \<open>Properties of \<open>strip\<close>\<close>

lemma rev_dropWhile_split:
  "rev (dropWhile P (rev m)) @ rev (takeWhile P (rev m)) = m"
proof -
  have "rev (takeWhile P (rev m) @ dropWhile P (rev m)) = rev (rev m)"
    by (simp only: takeWhile_dropWhile_id)
  then show ?thesis by (simp only: rev_append rev_rev_ident)
qed

lemma lstrip_split: "lstrip s = strip s @ rev (takeWhile isspace (rev (lstrip s)))"
  unfolding strip_def rstrip_def by (rule rev_dropWhile_split [symmetric])

lemma strip_decomp:
  "\<exists>l r. s = l @ strip s @ r \<and> list_all isspace l \<and> list_all isspace r"
proof -
  let ?l = "takeWhile isspace s"
  let ?r = "rev (takeWhile isspace (rev (lstrip s)))"
  have "s = ?l @ lstrip s" by (simp add: lstrip_def)
  then have "s = ?l @ strip s @ ?r" using lstrip_split [of s] by simp
  moreover have "list_all isspace ?l"
    unfolding list_all_iff by (blast dest: set_takeWhileD)
  moreover have "list_all isspace ?r"
    unfolding list_all_iff set_rev by (blast dest: set_takeWhileD)
  ultimately show ?thesis by blast
qed

lemma strip_ends:
  "strip s \<noteq> [] \<Longrightarrow> \<not> isspace (hd (strip s)) \<and> \<not> isspace (last (strip s))"
proof -
  assume ne: "strip s \<noteq> []"
  have r: "rev (strip s) = dropWhile isspace (rev (lstrip s))"
    by (simp add: strip_def rstrip_def)
  then have "dropWhile isspace (rev (lstrip s)) \<noteq> []" using ne by (metis rev_is_Nil_conv)
  then have "\<not> isspace (hd (dropWhile isspace (rev (lstrip s))))" by (rule hd_dropWhile)
  then have l: "\<not> isspace (last (strip s))" using r ne by (metis hd_rev)
  have mne: "lstrip s \<noteq> []"
  proof
    assume "lstrip s = []"
    then have "strip s = []" by (simp add: strip_def rstrip_def)
    then show False using ne by simp
  qed
  then have "dropWhile isspace s \<noteq> []" by (simp add: lstrip_def)
  then have "\<not> isspace (hd (dropWhile isspace s))" by (rule hd_dropWhile)
  then have hm: "\<not> isspace (hd (lstrip s))" by (simp add: lstrip_def)
  have "hd (lstrip s) = hd (strip s)" using ne lstrip_split [of s] by (metis hd_append2)
  then show ?thesis using hm l by simp
qed

lemma strip_id:
  "s \<noteq> [] \<Longrightarrow> \<not> isspace (hd s) \<Longrightarrow> \<not> isspace (last s) \<Longrightarrow> strip s = s"
proof -
  assume ne: "s \<noteq> []" and h: "\<not> isspace (hd s)" and l: "\<not> isspace (last s)"
  have 1: "lstrip s = s" using ne h by (cases s) (simp_all add: lstrip_def)
  have "rev s \<noteq> []" using ne by simp
  moreover have "\<not> isspace (hd (rev s))" using ne l by (simp add: hd_rev)
  ultimately have "dropWhile isspace (rev s) = rev s" by (cases "rev s") simp_all
  then show ?thesis by (simp add: strip_def rstrip_def 1)
qed


section \<open>Properties of the session store\<close>

lemma append_to_history_str:
  "append_to_history sid r (PStr c) w =
     (Inr (), w\<lparr>chat_histories :=
        (chat_histories w)(sid \<mapsto> get_chat_history sid w @ [\<lparr>role = r, content = strip c\<rparr>])\<rparr>)"
  by (cases "chat_histories w sid") (simp_all add: append_to_history_def get_chat_history_def)

lemma append_to_history_none:
  "append_to_history sid r PNone w =
     (Inl AttributeError,
      w\<lparr>chat_histories :=
        (if chat_histories w sid = None then (chat_histories w)(sid \<mapsto> []) else chat_histories w)\<rparr>)"
  by (cases "chat_histories w sid") (simp_all add: append_to_history_def)

lemma get_chat_history_upd:
  "get_chat_history sid (w\<lparr>chat_histories := (chat_histories w)(sid \<mapsto> h)\<rparr>) = h"
  by (simp add: get_chat_history_def)

lemma get_chat_history_other:
  "s \<noteq> sid \<Longrightarrow>
   get_chat_history s (w\<lparr>chat_histories := (chat_histories w)(sid \<mapsto> h)\<rparr>) = get_chat_history s w"
  by (simp add: get_chat_history_def)

lemma get_chat_history_append_all:
  "get_chat_history sid (append_all ops w) =
     get_chat_history sid w @
     map (\<lambda>(s, r, c). \<lparr>role = r, content = strip c\<rparr>) (filter (\<lambda>(s, r, c). s = sid) ops)"
proof (induction ops arbitrary: w)
  case Nil
  show ?case by simp
next
  case (Cons x ops)
  obtain s r c where x: "x = (s, r, c)" by (cases x)
  show ?case
  proof (cases "s = sid")
    case True
    then show ?thesis
      by (simp add: x Cons.IH append_to_history_str get_chat_history_upd)
  next
    case False
    then show ?thesis
      by (simp add: x Cons.IH append_to_history_str get_chat_history_other)
  qed
qed

text \<open>
  Claim C6. Appending a string to a session succeeds and adds exactly one turn, at the end
  of that session's history, whose content is the string without its leading and trailing
  whitespace; the other sessions are untouched, and a session that was absent is created
  holding exactly that turn. The stored content is what remains of the string once a
  whitespace prefix and a whitespace suffix are removed, and it neither starts nor ends
  with whitespace. After any sequence of appends the history of a session is its old
  history followed by the turns appended to it, in the order of the appends; the history
  of a session that is not in the store is empty.
\<close>

theorem session_store_append_get:
  "(let w' = snd (append_to_history sid r (PStr c) w) in
      fst (append_to_history sid r (PStr c) w) = Inr () \<and>
      get_chat_history sid w' = get_chat_history sid w @ [\<lparr>role = r, content = strip c\<rparr>] \<and>
      (\<forall>s. s \<noteq> sid \<longrightarrow> chat_histories w' s = chat_histories w s) \<and>
      (chat_histories w sid = None \<longrightarrow>
         chat_histories w' sid = Some [\<lparr>role = r, content = strip c\<rparr>])) \<and>
   (\<exists>l t. c = l @ strip c @ t \<and> list_all isspace l \<and> list_all isspace t) \<and>
   (strip c \<noteq> [] \<longrightarrow> \<not> isspace (hd (strip c)) \<and> \<not> isspace (last (strip c))) \<and>
   get_chat_history sid (append_all ops w) =
     get_chat_history sid w @
     map (\<lambda>(s, r, c). \<lparr>role = r, content = strip c\<rparr>) (filter (\<lambda>(s, r, c). s = sid) ops) \<and>
   (chat_histories w sid = None \<longrightarrow> get_chat_history sid w = [])"
proof -
  have 1: "(let w' = snd (append_to_history sid r (PStr c) w) in
      fst (append_to_history sid r (PStr c) w) = Inr () \<and>
      get_chat_history sid w' = get_chat_history sid w @ [\<lparr>role = r, content = strip c\<rparr>] \<and>
      (\<forall>s. s \<noteq> sid \<longrightarrow> chat_histories w' s = chat_histories w s) \<and>
      (chat_histories w sid = None \<longrightarrow>
         chat_histories w' sid = Some [\<lparr>role = r, content = strip c\<rparr>]))"
    by (simp add: append_to_history_str get_chat_history_def)
  have 2: "chat_histories w sid = None \<longrightarrow> get_chat_history sid w = []"
    by (simp add: get_chat_history_def)
  show ?thesis
    using 1 2 strip_decomp [of c] strip_ends [of c] get_chat_history_append_all [of sid ops w]
    by blast
qed

text \<open>
  Claim C6 on the empty store: one append to session \<^verbatim>\<open>s1\<close>, then three appends of which
  two go to \<^verbatim>\<open>s1\<close>.
\<close>

theorem session_store_append_get_witness:
  "chat_histories empty_world (str ''s1'') = None \<and>
   get_chat_history (str ''s1'') empty_world = [] \<and>
   get_chat_history (str ''s1'')
     (snd (append_to_history (str ''s1'') (str ''user'') (PStr (str '' hi '')) empty_world)) =
     [\<lparr>role = str ''user'', content = str ''hi''\<rparr>] \<and>
   get_chat_history (str ''s1'')
     (append_all [(str ''s1'', str ''user'', str '' hi ''),
                  (str ''s2'', str ''user'', str ''other''),
                  (str ''s1'', str ''assistant'', str ''yo '')] empty_world) =
     [\<lparr>role = str ''user'', content = str ''hi''\<rparr>,
      \<lparr>role = str ''assistant'', content = str ''yo''\<rparr>]"
proof -
  have s1: "strip (str '' hi '') = str ''hi''"
    by (simp add: strip_def rstrip_def lstrip_def isspace_def str_def)
  have s2: "strip (str ''yo '') = str ''yo''"
    by (simp add: strip_def rstrip_def lstrip_def isspace_def str_def)
  have n: "chat_histories empty_world (str ''s1'') = None"
    by (simp add: empty_world_def)
  have d: "str ''s2'' \<noteq> str ''s1''" by (simp add: str_def)
  show ?thesis
    using n d s1 s2
      session_store_append_get [of "str ''s1''" "str ''user''" "str '' hi ''" empty_world
        "[(str ''s1'', str ''user'', str '' hi ''),
          (str ''s2'', str ''user'', str ''other''),
          (str ''s1'', str ''assistant'', str ''yo '')]"]
    by (simp add: Let_def)
qed


section \<open>Properties of the handler\<close>

lemma tts_loop_frame:
  "chat_histories (snd (tts_loop ev k cs urls w)) = chat_histories w \<and>
   llm_calls (snd (tts_loop ev k cs urls w)) = llm_calls w"
  by (induction cs arbitrary: k urls w) (simp_all add: Let_def split: sum.splits)

lemma tts_loop_fail:
  "\<exists>i<length cs. isl (tts_generate ev (k + i) (cs ! i)) \<Longrightarrow>
   isl (fst (tts_loop ev k cs urls w))"
proof (induction cs arbitrary: k urls w)
  case Nil
  then show ?case by simp
next
  case (Cons c cs)
  show ?case
  proof (cases "tts_generate ev k c")
    case (Inl e)
    then show ?thesis by (simp add: Let_def)
  next
    case (Inr u)
    from Cons.prems obtain i where i: "i < length (c # cs)"
      and f: "isl (tts_generate ev (k + i) ((c # cs) ! i))" by blast
    have "i \<noteq> 0" using f Inr by (auto intro: ccontr)
    then obtain j where j: "i = Suc j" by (cases i) simp_all
    then have "j < length cs" and "isl (tts_generate ev (Suc k + j) (cs ! j))"
      using i f by simp_all
    then have "\<exists>j<length cs. isl (tts_generate ev (Suc k + j) (cs ! j))" by blast
    then have "isl (fst (tts_loop ev (Suc k) cs (urls @ [u]) (w\<lparr>tts_calls := tts_calls w @ [c]\<rparr>)))"
      by (rule Cons.IH)
    then show ?thesis using Inr by (simp add: Let_def)
  qed
qed

lemma tts_loop_calls:
  "\<exists>n \<le> length cs. tts_calls (snd (tts_loop ev k cs urls w)) = tts_calls w @ take n cs \<and>
      (cs \<noteq> [] \<longrightarrow> 0 < n)"
proof (induction cs arbitrary: k urls w)
  case Nil
  show ?case by simp
next
  case (Cons c cs)
  show ?case
  proof (cases "tts_generate ev k c")
    case (Inl e)
    then have "tts_calls (snd (tts_loop ev k (c # cs) urls w)) = tts_calls w @ take (Suc 0) (c # cs)"
      by (simp add: Let_def)
    then show ?thesis by (intro exI [of _ "Suc 0"]) simp
  next
    case (Inr u)
    obtain n where n: "n \<le> length cs"
      and c: "tts_calls (snd (tts_loop ev (Suc k) cs (urls @ [u]) (w\<lparr>tts_calls := tts_calls w @ [c]\<rparr>))) =
                tts_calls (w\<lparr>tts_calls := tts_calls w @ [c]\<rparr>) @ take n cs"
      using Cons.IH by blast
    have "tts_calls (snd (tts_loop ev k (c # cs) urls w)) = tts_calls w @ take (Suc n) (c # cs)"
      using Inr c by (simp add: Let_def)
    then show ?thesis using n by (intro exI [of _ "Suc n"]) simp
  qed
qed

lemma tts_step_frame:
  "chat_histories (snd (tts_step ev g w)) = chat_histories w \<and>
   llm_calls (snd (tts_step ev g w)) = llm_calls w"
proof (cases "py_chunk_text g")
  case (Inl e)
  then show ?thesis by (simp add: tts_step_def)
next
  case (Inr cs)
  obtain r w1 where l: "tts_loop ev 0 cs [] w = (r, w1)" by (cases "tts_loop ev 0 cs [] w")
  have "chat_histories w1 = chat_histories w \<and> llm_calls w1 = llm_calls w"
    using tts_loop_frame [of ev 0 cs "[]" w] l by simp
  then show ?thesis using Inr l by (cases r) (simp_all add: tts_step_def)
qed

lemma tts_step_fail:
  assumes "chunk_text g 3000 = Inr cs" and "\<exists>i<length cs. isl (tts_generate ev i (cs ! i))"
  shows "fst (tts_step ev (PStr g) w) = []"
proof -
  obtain r w1 where l: "tts_loop ev 0 cs [] w = (r, w1)" by (cases "tts_loop ev 0 cs [] w")
  have "isl (fst (tts_loop ev 0 cs [] w))"
    using assms(2) by (intro tts_loop_fail) simp
  then obtain e where "r = Inl e" using l by (cases r) simp_all
  then show ?thesis using assms(1) l by (simp add: tts_step_def)
qed

lemma llm_step_world:
  "snd (llm_step ev sid w) = w\<lparr>llm_calls := llm_calls w @ [build_prompt (get_chat_history sid w)]\<rparr>"
  by (simp add: llm_step_def Let_def split: sum.splits)


lemma agent_chat_early:
  "resolve_text ev sid req w = Inl resp \<Longrightarrow> agent_chat ev sid req w = (Inr resp, w)"
  by (simp add: agent_chat_def agent_chat_body_def)

lemma agent_chat_no_input:
  "resolve_text ev sid req w = Inr v \<Longrightarrow> \<not> truthy v \<Longrightarrow>
   agent_chat ev sid req w =
     (Inr \<lparr>success = True, gemini_text = PStr no_input_text, audio_urls = [],
           history = get_chat_history sid w\<rparr>, w)"
  by (simp add: agent_chat_def agent_chat_body_def)

lemma agent_chat_main:
  assumes r: "resolve_text ev sid req w = Inr (PStr t)" and t: "t \<noteq> []"
    and g: "fst (llm_step ev sid (snd (append_to_history sid (str ''user'') (PStr t) w))) = PStr g"
  shows "agent_chat ev sid req w =
     (Inr \<lparr>success = True, gemini_text = PStr g,
           audio_urls = fst (tts_step ev (PStr g)
             (snd (append_to_history sid (str ''assistant'') (PStr g)
               (snd (llm_step ev sid (snd (append_to_history sid (str ''user'') (PStr t) w))))))),
           history = get_chat_history sid w @
             [\<lparr>role = str ''user'', content = strip t\<rparr>,
              \<lparr>role = str ''assistant'', content = strip g\<rparr>]\<rparr>,
      snd (tts_step ev (PStr g)
             (snd (append_to_history sid (str ''assistant'') (PStr g)
               (snd (llm_step ev sid (snd (append_to_history sid (str ''user'') (PStr t) w))))))))"
proof -
  define w1 where "w1 = snd (append_to_history sid (str ''user'') (PStr t) w)"
  define w2 where "w2 = snd (llm_step ev sid w1)"
  define w3 where "w3 = snd (append_to_history sid (str ''assistant'') (PStr g) w2)"
  define urls where "urls = fst (tts_step ev (PStr g) w3)"
  define w4 where "w4 = snd (tts_step ev (PStr g) w3)"
  have a1: "append_to_history sid (str ''user'') (PStr t) w = (Inr (), w1)"
    unfolding w1_def by (simp add: append_to_history_str)
  have l: "llm_step ev sid w1 = (PStr g, w2)"
    unfolding w2_def w1_def using g by (simp add: prod_eq_iff)
  have a3: "append_to_history sid (str ''assistant'') (PStr g) w2 = (Inr (), w3)"
    unfolding w3_def by (simp add: append_to_history_str)
  have ts: "tts_step ev (PStr g) w3 = (urls, w4)"
    unfolding urls_def w4_def by simp
  have h1: "get_chat_history sid w1 = get_chat_history sid w @ [\<lparr>role = str ''user'', content = strip t\<rparr>]"
    unfolding w1_def by (simp add: append_to_history_str get_chat_history_upd)
  have h2: "get_chat_history sid w2 = get_chat_history sid w1"
    unfolding w2_def by (simp add: llm_step_world get_chat_history_def)
  have h3: "get_chat_history sid w3 = get_chat_history sid w2 @ [\<lparr>role = str ''assistant'', content = strip g\<rparr>]"
    unfolding w3_def by (simp add: append_to_history_str get_chat_history_upd)
  have h4: "get_chat_history sid w4 = get_chat_history sid w3"
    unfolding w4_def using tts_step_frame [of ev "PStr g" w3] by (simp add: get_chat_history_def)
  have h: "get_chat_history sid w4 = get_chat_history sid w @
             [\<lparr>role = str ''user'', content = strip t\<rparr>,
              \<lparr>role = str ''assistant'', content = strip g\<rparr>]"
    by (simp add: h4 h3 h2 h1)
  have body: "agent_chat_body ev sid req w =
     (Inr \<lparr>success = True, gemini_text = PStr g, audio_urls = urls,
           history = get_chat_history sid w4\<rparr>, w4)"
    unfolding agent_chat_body_def by (simp add: r t a1 l a3 ts)
  have "agent_chat ev sid req w =
     (Inr \<lparr>success = True, gemini_text = PStr g, audio_urls = urls,
           history = get_chat_history sid w @
             [\<lparr>role = str ''user'', content = strip t\<rparr>,
              \<lparr>role = str ''assistant'', content = strip g\<rparr>]\<rparr>, w4)"
    unfolding agent_chat_def body by (simp add: h)
  then show ?thesis
    unfolding urls_def w4_def w3_def w2_def w1_def .
qed

lemma agent_chat_reply:
  assumes r: "resolve_text ev sid req w = Inr (PStr t)" and t: "t \<noteq> []"
    and g: "fst (llm_step ev sid (snd (append_to_history sid (str ''user'') (PStr t) w))) = PStr g"
  shows "\<exists>w3.
     chat_histories w3 = (chat_histories w)(sid \<mapsto> get_chat_history sid w @
        [\<lparr>role = str ''user'', content = strip t\<rparr>,
         \<lparr>role = str ''assistant'', content = strip g\<rparr>]) \<and>
     llm_calls w3 = llm_calls w @
        [build_prompt (get_chat_history sid w @ [\<lparr>role = str ''user'', content = strip t\<rparr>])] \<and>
     tts_calls w3 = tts_calls w \<and>
     agent_chat ev sid req w =
       (Inr \<lparr>success = True, gemini_text = PStr g,
             audio_urls = fst (tts_step ev (PStr g) w3),
             history = get_chat_history sid w @
               [\<lparr>role = str ''user'', content = strip t\<rparr>,
                \<lparr>role = str ''assistant'', content = strip g\<rparr>]\<rparr>,
        snd (tts_step ev (PStr g) w3))"
proof -
  let ?w3 = "snd (append_to_history sid (str ''assistant'') (PStr g)
               (snd (llm_step ev sid (snd (append_to_history sid (str ''user'') (PStr t) w)))))"
  have 1: "chat_histories ?w3 = (chat_histories w)(sid \<mapsto> get_chat_history sid w @
        [\<lparr>role = str ''user'', content = strip t\<rparr>,
         \<lparr>role = str ''assistant'', content = strip g\<rparr>])"
    by (simp add: append_to_history_str llm_step_world get_chat_history_def)
  have 2: "llm_calls ?w3 = llm_calls w @
        [build_prompt (get_chat_history sid w @ [\<lparr>role = str ''user'', content = strip t\<rparr>])]"
    by (simp add: append_to_history_str llm_step_world get_chat_history_def)
  have 3: "tts_calls ?w3 = tts_calls w"
    by (simp add: append_to_history_str llm_step_world)
  show ?thesis
    using 1 2 3 agent_chat_main [OF r t g] by blast
qed

lemma agent_chat_reply_none:
  assumes r: "resolve_text ev sid req w = Inr (PStr t)" and t: "t \<noteq> []"
    and g: "fst (llm_step ev sid (snd (append_to_history sid (str ''user'') (PStr t) w))) = PNone"
  shows "\<exists>w3.
     chat_histories w3 = (chat_histories w)(sid \<mapsto> get_chat_history sid w @
        [\<lparr>role = str ''user'', content = strip t\<rparr>]) \<and>
     llm_calls w3 = llm_calls w @
        [build_prompt (get_chat_history sid w @ [\<lparr>role = str ''user'', content = strip t\<rparr>])] \<and>
     tts_calls w3 = tts_calls w \<and>
     agent_chat ev sid req w =
       (Inr \<lparr>success = True, gemini_text = PStr unexpected_text, audio_urls = [],
             history = get_chat_history sid w @ [\<lparr>role = str ''user'', content = strip t\<rparr>]\<rparr>,
        w3)"
proof -
  define w1 where "w1 = snd (append_to_history sid (str ''user'') (PStr t) w)"
  define w2 where "w2 = snd (llm_step ev sid w1)"
  define w3 where "w3 = snd (append_to_history sid (str ''assistant'') PNone w2)"
  have a1: "append_to_history sid (str ''user'') (PStr t) w = (Inr (), w1)"
    unfolding w1_def by (simp add: append_to_history_str)
  have l: "llm_step ev sid w1 = (PNone, w2)"
    unfolding w2_def w1_def using g by (simp add: prod_eq_iff)
  have a3: "append_to_history sid (str ''assistant'') PNone w2 = (Inl AttributeError, w3)"
    unfolding w3_def by (simp add: append_to_history_none)
  have c1: "chat_histories w1 = (chat_histories w)(sid \<mapsto> get_chat_history sid w @
        [\<lparr>role = str ''user'', content = strip t\<rparr>])"
    unfolding w1_def by (simp add: append_to_history_str)
  have c2: "chat_histories w2 = chat_histories w1 \<and> tts_calls w2 = tts_calls w1 \<and>
      llm_calls w2 = llm_calls w1 @ [build_prompt (get_chat_history sid w1)]"
    unfolding w2_def by (simp add: llm_step_world)
  have c3: "chat_histories w3 = chat_histories w2 \<and> tts_calls w3 = tts_calls w2 \<and>
      llm_calls w3 = llm_calls w2"
    unfolding w3_def using c1 c2 by (simp add: append_to_history_none)
  have l1: "llm_calls w1 = llm_calls w \<and> tts_calls w1 = tts_calls w"
    unfolding w1_def by (simp add: append_to_history_str)
  have h1: "get_chat_history sid w1 = get_chat_history sid w @ [\<lparr>role = str ''user'', content = strip t\<rparr>]"
    using c1 by (simp add: get_chat_history_def)
  have h3: "get_chat_history sid w3 = get_chat_history sid w1"
    using c2 c3 by (simp add: get_chat_history_def)
  have body: "agent_chat_body ev sid req w = (Inl AttributeError, w3)"
    unfolding agent_chat_body_def by (simp add: r t a1 l a3)
  have "agent_chat ev sid req w =
       (Inr \<lparr>success = True, gemini_text = PStr unexpected_text, audio_urls = [],
             history = get_chat_history sid w @ [\<lparr>role = str ''user'', content = strip t\<rparr>]\<rparr>,
        w3)"
    unfolding agent_chat_def body by (simp add: h3 h1)
  then show ?thesis using c1 c2 c3 l1 h1 by auto
qed

lemma resolve_text_Inl:
  "resolve_text ev sid req w = Inl resp \<Longrightarrow>
   resp = \<lparr>success = True, gemini_text = PStr audio_failed_text, audio_urls = [],
           history = get_chat_history sid w\<rparr>"
  unfolding resolve_text_def stt_step_def
  by (auto split: prod.splits option.splits if_splits sum.splits)

text \<open>
  Claim C2. For every request, every state of the store and every behaviour of the three
  services, the handler returns a response (no exception leaves it) and the response has
  \<open>success\<close> equal to \<open>True\<close>.
\<close>

theorem agent_chat_always_success:
  "\<exists>resp w'. agent_chat ev sid req w = (Inr resp, w') \<and> success resp"
proof (cases "resolve_text ev sid req w")
  case (Inl resp)
  then show ?thesis
    using agent_chat_early [OF Inl] resolve_text_Inl [OF Inl] by simp
next
  case (Inr v)
  show ?thesis
  proof (cases "truthy v")
    case False
    then show ?thesis using agent_chat_no_input [OF Inr] by simp
  next
    case True
    then obtain t where v: "v = PStr t" and t: "t \<noteq> []" by (cases v) simp_all
    have r: "resolve_text ev sid req w = Inr (PStr t)" using Inr v by simp
    show ?thesis
    proof (cases "fst (llm_step ev sid (snd (append_to_history sid (str ''user'') (PStr t) w)))")
      case PNone
      then show ?thesis using agent_chat_reply_none [OF r t] by auto
    next
      case (PStr g)
      then show ?thesis using agent_chat_reply [OF r t] by auto
    qed
  qed
qed

lemma resolve_text_audio_failed:
  "resolve_input req = (Some b, it) \<Longrightarrow> b \<noteq> [] \<Longrightarrow> transcribe ev b = Inl e \<Longrightarrow>
   resolve_text ev sid req w =
     Inl \<lparr>success = True, gemini_text = PStr audio_failed_text, audio_urls = [],
          history = get_chat_history sid w\<rparr>"
  by (simp add: resolve_text_def stt_step_def)

text \<open>
  Claim C3. When the input and speech-to-text blocks leave no usable text (\<^verbatim>\<open>None\<close> or the
  empty string), the handler returns the fixed "didn't catch anything" reply; when the
  request carries non-empty audio bytes and the transcriber raises, it returns the fixed
  "couldn't process the audio" reply. In both cases \<open>success\<close> is \<open>True\<close>, \<open>audio_urls\<close> is
  empty, \<open>history\<close> is the session's current history, and the state after the call is the
  state before it: nothing is appended and no session is created.
\<close>

theorem agent_chat_short_circuit:
  "(resolve_text ev sid req w = Inr v \<and> \<not> truthy v \<longrightarrow>
      agent_chat ev sid req w =
        (Inr \<lparr>success = True, gemini_text = PStr no_input_text, audio_urls = [],
              history = get_chat_history sid w\<rparr>, w)) \<and>
   (resolve_input req = (Some b, it) \<and> b \<noteq> [] \<and> transcribe ev b = Inl e \<longrightarrow>
      agent_chat ev sid req w =
        (Inr \<lparr>success = True, gemini_text = PStr audio_failed_text, audio_urls = [],
              history = get_chat_history sid w\<rparr>, w))"
  using agent_chat_no_input [of ev sid req w v]
    agent_chat_early [OF resolve_text_audio_failed, of req b it ev e sid w]
  by blast

lemma resolve_input_empty_json:
  "resolve_input (json_request (JObj [])) = (None, PStr [])"
  by (simp add: resolve_input_def json_request_def startswith_def str_def strip_def rstrip_def lstrip_def)

lemma resolve_input_audio:
  "resolve_input (audio_request b) = (Some b, PNone)"
  by (simp add: resolve_input_def audio_request_def startswith_def str_def read_file_field_def)

text \<open>
  Claim C3 on a fresh store: the empty JSON body \<^verbatim>\<open>{}\<close>, and an upload of three bytes that
  the transcriber rejects.
\<close>

theorem agent_chat_short_circuit_witness:
  "agent_chat (test_env (Inl ServiceError) (Inl ServiceError) 0) (str ''s1'') (json_request (JObj []))
      empty_world =
     (Inr \<lparr>success = True, gemini_text = PStr no_input_text, audio_urls = [], history = []\<rparr>,
      empty_world) \<and>
   agent_chat (test_env (Inl ServiceError) (Inl ServiceError) 0) (str ''s1'') (audio_request [1, 2, 3])
      empty_world =
     (Inr \<lparr>success = True, gemini_text = PStr audio_failed_text, audio_urls = [], history = []\<rparr>,
      empty_world)"
proof -
  let ?ev = "test_env (Inl ServiceError) (Inl ServiceError) 0"
  have 1: "resolve_text ?ev (str ''s1'') (json_request (JObj [])) empty_world = Inr (PStr [])"
    by (simp add: resolve_text_def resolve_input_empty_json stt_step_def)
  have 2: "\<not> truthy (PStr [])" by simp
  have 3: "resolve_input (audio_request [1, 2, 3]) = (Some [1, 2, 3], PNone)"
    by (rule resolve_input_audio)
  have 4: "[1, 2, 3 :: 8 word] \<noteq> []" by simp
  have 5: "transcribe ?ev [1, 2, 3] = Inl ServiceError" by (simp add: test_env_def)
  have h: "get_chat_history (str ''s1'') empty_world = []"
    by (simp add: get_chat_history_def empty_world_def)
  show ?thesis
    using 1 2 3 4 5 h
      agent_chat_short_circuit [of ?ev "str ''s1''" "json_request (JObj [])" empty_world "PStr []"
        "[1, 2, 3]" PNone ServiceError]
      agent_chat_short_circuit [of ?ev "str ''s1''" "audio_request [1, 2, 3]" empty_world "PStr []"
        "[1, 2, 3]" PNone ServiceError]
    by simp
qed


lemma tts_step_single:
  "chunk_text g 3000 = Inr [c] \<Longrightarrow>
   tts_step ev (PStr g) w =
     (case tts_generate ev 0 c of Inl e \<Rightarrow> [] | Inr u \<Rightarrow> [u],
      w\<lparr>tts_calls := tts_calls w @ [c]\<rparr>)"
  by (simp add: tts_step_def Let_def split: sum.splits)

lemma fallback_text_facts:
  "fallback_text \<noteq> [] \<and> length fallback_text \<le> 3000 \<and> strip fallback_text = fallback_text"
proof -
  have 1: "fallback_text \<noteq> []" by (simp add: fallback_text_def str_def)
  have 2: "length fallback_text \<le> 3000" by (simp add: fallback_text_def str_def)
  have "\<not> isspace (hd fallback_text)" by (simp add: fallback_text_def str_def isspace_def)
  moreover have "\<not> isspace (last fallback_text)" by (simp add: fallback_text_def str_def isspace_def)
  ultimately have "strip fallback_text = fallback_text" using 1 by (intro strip_id)
  then show ?thesis using 1 2 by simp
qed

lemma llm_step_fail:
  "isl (generate_content ev (build_prompt (get_chat_history sid w))) \<or>
   (\<exists>rs. generate_content ev (build_prompt (get_chat_history sid w)) = Inr rs \<and>
         isl (extract_text rs)) \<Longrightarrow>
   fst (llm_step ev sid w) = PStr fallback_text"
  by (auto simp: llm_step_def Let_def split: sum.splits)

lemma user_turn_history:
  "get_chat_history sid (snd (append_to_history sid (str ''user'') (PStr t) w)) =
     get_chat_history sid w @ [\<lparr>role = str ''user'', content = strip t\<rparr>]"
  by (simp add: append_to_history_str get_chat_history_upd)

text \<open>
  Claim C4. When the request resolves to a non-empty text and the language-model block
  raises (the call itself, or reading the text of its response), the reply is the fixed
  fallback text: the response carries it as \<open>gemini_text\<close>, the history gains the user turn
  and then an assistant turn whose content is the fallback text, the store holds that
  history, and the synthesiser is called exactly once, on the fallback text, the response
  carrying its audio reference when that call succeeds.
\<close>

theorem llm_failure_fallback:
  assumes r: "resolve_text ev sid req w = Inr (PStr t)" and t: "t \<noteq> []"
    and f: "isl (generate_content ev
                   (build_prompt (get_chat_history sid w @ [\<lparr>role = str ''user'', content = strip t\<rparr>]))) \<or>
            (\<exists>rs. generate_content ev
                   (build_prompt (get_chat_history sid w @ [\<lparr>role = str ''user'', content = strip t\<rparr>])) = Inr rs \<and>
                  isl (extract_text rs))"
  shows "\<exists>resp w'. agent_chat ev sid req w = (Inr resp, w') \<and> success resp \<and>
           gemini_text resp = PStr fallback_text \<and>
           history resp = get_chat_history sid w @
             [\<lparr>role = str ''user'', content = strip t\<rparr>,
              \<lparr>role = str ''assistant'', content = fallback_text\<rparr>] \<and>
           get_chat_history sid w' = history resp \<and>
           tts_calls w' = tts_calls w @ [fallback_text] \<and>
           audio_urls resp = (case tts_generate ev 0 fallback_text of Inl e \<Rightarrow> [] | Inr u \<Rightarrow> [u])"
proof -
  have g: "fst (llm_step ev sid (snd (append_to_history sid (str ''user'') (PStr t) w))) = PStr fallback_text"
    using f by (intro llm_step_fail) (simp only: user_turn_history)
  obtain w3 where c: "chat_histories w3 = (chat_histories w)(sid \<mapsto> get_chat_history sid w @
        [\<lparr>role = str ''user'', content = strip t\<rparr>,
         \<lparr>role = str ''assistant'', content = strip fallback_text\<rparr>])"
    and tc: "tts_calls w3 = tts_calls w"
    and a: "agent_chat ev sid req w =
       (Inr \<lparr>success = True, gemini_text = PStr fallback_text,
             audio_urls = fst (tts_step ev (PStr fallback_text) w3),
             history = get_chat_history sid w @
               [\<lparr>role = str ''user'', content = strip t\<rparr>,
                \<lparr>role = str ''assistant'', content = strip fallback_text\<rparr>]\<rparr>,
        snd (tts_step ev (PStr fallback_text) w3))"
    using agent_chat_reply [OF r t g] by blast
  have ch: "chunk_text fallback_text 3000 = Inr [fallback_text]"
    using fallback_text_facts by (intro chunk_text_one) simp_all
  have ts: "tts_step ev (PStr fallback_text) w3 =
     (case tts_generate ev 0 fallback_text of Inl e \<Rightarrow> [] | Inr u \<Rightarrow> [u],
      w3\<lparr>tts_calls := tts_calls w3 @ [fallback_text]\<rparr>)"
    by (rule tts_step_single [OF ch])
  have s: "strip fallback_text = fallback_text" using fallback_text_facts by simp
  show ?thesis
    unfolding a ts by (simp add: s c tc get_chat_history_def)
qed


lemma resolve_text_json_text:
  "resolve_text ev sid (json_request (JObj [(str ''text'', JStr s)])) w = Inr (PStr (strip s))"
  by (simp add: resolve_text_def resolve_input_def json_request_def startswith_def str_def stt_step_def)

lemma strip_hello: "strip (str ''Hello'') = str ''Hello''"
  by (simp add: strip_def rstrip_def lstrip_def isspace_def str_def)

lemma empty_world_history: "get_chat_history sid empty_world = []"
  by (simp add: get_chat_history_def empty_world_def)

text \<open>Claim C4 for \<^verbatim>\<open>{"text": "Hello"}\<close> on a fresh store, with a language model that raises.\<close>

theorem llm_failure_fallback_witness:
  "\<exists>resp w'.
     agent_chat (test_env (Inl ServiceError) (Inl ServiceError) 1) (str ''s1'')
       (json_request (JObj [(str ''text'', JStr (str ''Hello''))])) empty_world = (Inr resp, w') \<and>
     success resp \<and> gemini_text resp = PStr fallback_text \<and>
     history resp = [\<lparr>role = str ''user'', content = str ''Hello''\<rparr>,
                     \<lparr>role = str ''assistant'', content = fallback_text\<rparr>] \<and>
     get_chat_history (str ''s1'') w' = history resp \<and>
     tts_calls w' = [fallback_text] \<and>
     audio_urls resp = [str ''audio'' @ [48]]"
proof -
  let ?ev = "test_env (Inl ServiceError) (Inl ServiceError) 1"
  let ?req = "json_request (JObj [(str ''text'', JStr (str ''Hello''))])"
  have r: "resolve_text ?ev (str ''s1'') ?req empty_world = Inr (PStr (str ''Hello''))"
    by (simp only: resolve_text_json_text strip_hello)
  have t: "str ''Hello'' \<noteq> []" by (simp add: str_def)
  have f: "isl (generate_content ?ev
                   (build_prompt (get_chat_history (str ''s1'') empty_world @
                      [\<lparr>role = str ''user'', content = strip (str ''Hello'')\<rparr>]))) \<or>
            (\<exists>rs. generate_content ?ev
                   (build_prompt (get_chat_history (str ''s1'') empty_world @
                      [\<lparr>role = str ''user'', content = strip (str ''Hello'')\<rparr>])) = Inr rs \<and>
                  isl (extract_text rs))"
    by (simp add: test_env_def)
  have e: "tts_calls empty_world = []" by (simp add: empty_world_def)
  show ?thesis
    using llm_failure_fallback [OF r t f]
    by (simp add: test_env_def e empty_world_history strip_hello)
qed


lemma llm_step_text_reply:
  "g \<noteq> [] \<Longrightarrow> fst (llm_step (test_env stt (text_reply g) n) sid w) = PStr g"
  by (simp add: llm_step_def test_env_def text_reply_def extract_text_def getattr_default_def Let_def)

lemma final_history:
  "chat_histories w3 = (chat_histories w)(sid \<mapsto> h) \<Longrightarrow>
   get_chat_history sid (snd (tts_step ev g w3)) = h"
  using tts_step_frame [of ev g w3] by (simp add: get_chat_history_def)

text \<open>
  Claim C10. When the request resolves to a non-empty text and the reply of the
  language-model block is a string \<open>g\<close>, so that the assistant turn is appended, the response
  carries \<open>g\<close> itself as \<open>gemini_text\<close> while the last turn of the returned history, which is
  also the stored one, has role \<^verbatim>\<open>assistant\<close> and content \<open>strip g\<close>; and \<open>g\<close> is \<open>strip g\<close>
  between a whitespace prefix and a whitespace suffix.
\<close>

theorem assistant_turn_stripped:
  assumes r: "resolve_text ev sid req w = Inr (PStr t)" and t: "t \<noteq> []"
    and g: "fst (llm_step ev sid (snd (append_to_history sid (str ''user'') (PStr t) w))) = PStr g"
  shows "\<exists>resp w'. agent_chat ev sid req w = (Inr resp, w') \<and>
           gemini_text resp = PStr g \<and> history resp \<noteq> [] \<and>
           last (history resp) = \<lparr>role = str ''assistant'', content = strip g\<rparr> \<and>
           get_chat_history sid w' = history resp \<and>
           (\<exists>l r. g = l @ strip g @ r \<and> list_all isspace l \<and> list_all isspace r)"
proof -
  obtain w3 where c: "chat_histories w3 = (chat_histories w)(sid \<mapsto> get_chat_history sid w @
        [\<lparr>role = str ''user'', content = strip t\<rparr>,
         \<lparr>role = str ''assistant'', content = strip g\<rparr>])"
    and a: "agent_chat ev sid req w =
       (Inr \<lparr>success = True, gemini_text = PStr g,
             audio_urls = fst (tts_step ev (PStr g) w3),
             history = get_chat_history sid w @
               [\<lparr>role = str ''user'', content = strip t\<rparr>,
                \<lparr>role = str ''assistant'', content = strip g\<rparr>]\<rparr>,
        snd (tts_step ev (PStr g) w3))"
    using agent_chat_reply [OF r t g] by blast
  show ?thesis
    unfolding a using strip_decomp [of g] by (simp add: final_history [OF c])
qed

text \<open>
  Claim C10 for a reply with surrounding blanks: the response returns it as it is, the
  history stores it stripped, and the two differ.
\<close>

theorem assistant_turn_stripped_witness:
  "\<exists>resp w'.
     agent_chat (test_env (Inl ServiceError) (text_reply (str '' Hi there  '')) 1) (str ''s1'')
       (json_request (JObj [(str ''text'', JStr (str ''Hello''))])) empty_world = (Inr resp, w') \<and>
     gemini_text resp = PStr (str '' Hi there  '') \<and>
     last (history resp) = \<lparr>role = str ''assistant'', content = str ''Hi there''\<rparr> \<and>
     str ''Hi there'' \<noteq> str '' Hi there  ''"
proof -
  let ?ev = "test_env (Inl ServiceError) (text_reply (str '' Hi there  '')) 1"
  let ?req = "json_request (JObj [(str ''text'', JStr (str ''Hello''))])"
  have r: "resolve_text ?ev (str ''s1'') ?req empty_world = Inr (PStr (str ''Hello''))"
    by (simp only: resolve_text_json_text strip_hello)
  have t: "str ''Hello'' \<noteq> []" by (simp add: str_def)
  have "str '' Hi there  '' \<noteq> []" by (simp add: str_def)
  then have g: "fst (llm_step ?ev (str ''s1'')
                  (snd (append_to_history (str ''s1'') (str ''user'') (PStr (str ''Hello'')) empty_world))) =
                PStr (str '' Hi there  '')"
    by (rule llm_step_text_reply)
  have s: "strip (str '' Hi there  '') = str ''Hi there''"
    by (simp add: strip_def rstrip_def lstrip_def isspace_def str_def)
  have d: "str ''Hi there'' \<noteq> str '' Hi there  ''" by (simp add: str_def)
  show ?thesis
    using assistant_turn_stripped [OF r t g] d by (auto simp: s)
qed

text \<open>
  Claim C5. When the request resolves to a non-empty text, the reply is a string \<open>g\<close> and
  the synthesiser raises on some chunk of \<open>g\<close>, the response has an empty \<open>audio_urls\<close>
  whatever the earlier chunks produced, and still carries \<open>g\<close> as \<open>gemini_text\<close> and the
  history with the user and assistant turns of this call, which the store keeps.
\<close>

theorem synthesis_failure_discards_audio:
  assumes r: "resolve_text ev sid req w = Inr (PStr t)" and t: "t \<noteq> []"
    and g: "fst (llm_step ev sid (snd (append_to_history sid (str ''user'') (PStr t) w))) = PStr g"
    and c: "chunk_text g 3000 = Inr cs"
    and f: "\<exists>i<length cs. isl (tts_generate ev i (cs ! i))"
  shows "\<exists>resp w'. agent_chat ev sid req w = (Inr resp, w') \<and> success resp \<and>
           audio_urls resp = [] \<and> gemini_text resp = PStr g \<and>
           history resp = get_chat_history sid w @
             [\<lparr>role = str ''user'', content = strip t\<rparr>,
              \<lparr>role = str ''assistant'', content = strip g\<rparr>] \<and>
           get_chat_history sid w' = history resp"
proof -
  obtain w3 where h: "chat_histories w3 = (chat_histories w)(sid \<mapsto> get_chat_history sid w @
        [\<lparr>role = str ''user'', content = strip t\<rparr>,
         \<lparr>role = str ''assistant'', content = strip g\<rparr>])"
    and a: "agent_chat ev sid req w =
       (Inr \<lparr>success = True, gemini_text = PStr g,
             audio_urls = fst (tts_step ev (PStr g) w3),
             history = get_chat_history sid w @
               [\<lparr>role = str ''user'', content = strip t\<rparr>,
                \<lparr>role = str ''assistant'', content = strip g\<rparr>]\<rparr>,
        snd (tts_step ev (PStr g) w3))"
    using agent_chat_reply [OF r t g] by blast
  show ?thesis
    unfolding a by (simp add: final_history [OF h] tts_step_fail [OF c f])
qed


lemma upt_0_2: "[0..<2] = [0, Suc 0]"
  by (simp add: eval_nat_numeral)

lemma upt_0_3: "[0..<3] = [0, Suc 0, 2]"
  by (simp add: eval_nat_numeral)

lemma chunk_text_3001:
  "chunk_text (replicate 3001 c) 3000 = Inr [replicate 3000 c, [c]]"
proof -
  have "range_len (length (replicate 3001 c)) 3000 = 2" by (simp add: range_len_def)
  then have "chunk_text (replicate 3001 c) 3000 =
      Inr (map (\<lambda>k. take 3000 (drop (k * 3000) (replicate 3001 c))) [0, Suc 0])"
    using chunk_text_3000 [of "replicate 3001 c"] by (simp only: upt_0_2)
  moreover have "replicate (Suc 0) c = [c]" by simp
  ultimately show ?thesis by simp
qed

text \<open>
  Claim C5 for a reply of 3001 characters whose first chunk is synthesised and whose
  second chunk fails: the reference of the first chunk is not returned.
\<close>

theorem synthesis_failure_discards_audio_witness:
  "\<exists>resp w'.
     agent_chat (test_env (Inl ServiceError) (text_reply (replicate 3001 97)) 1) (str ''s1'')
       (json_request (JObj [(str ''text'', JStr (str ''Hello''))])) empty_world = (Inr resp, w') \<and>
     success resp \<and> audio_urls resp = [] \<and> gemini_text resp = PStr (replicate 3001 97) \<and>
     history resp = [\<lparr>role = str ''user'', content = str ''Hello''\<rparr>,
                     \<lparr>role = str ''assistant'', content = replicate 3001 97\<rparr>] \<and>
     get_chat_history (str ''s1'') w' = history resp \<and>
     \<not> isl (tts_generate (test_env (Inl ServiceError) (text_reply (replicate 3001 97)) 1) 0
              (replicate 3000 97))"
proof -
  let ?g = "replicate 3001 (97 :: nat)"
  let ?ev = "test_env (Inl ServiceError) (text_reply ?g) 1"
  let ?req = "json_request (JObj [(str ''text'', JStr (str ''Hello''))])"
  have r: "resolve_text ?ev (str ''s1'') ?req empty_world = Inr (PStr (str ''Hello''))"
    by (simp only: resolve_text_json_text strip_hello)
  have t: "str ''Hello'' \<noteq> []" by (simp add: str_def)
  have "?g \<noteq> []" by simp
  then have g: "fst (llm_step ?ev (str ''s1'')
                  (snd (append_to_history (str ''s1'') (str ''user'') (PStr (str ''Hello'')) empty_world))) =
                PStr ?g"
    by (rule llm_step_text_reply)
  have c: "chunk_text ?g 3000 = Inr [replicate 3000 97, [97]]" by (rule chunk_text_3001)
  have "Suc 0 < length [replicate 3000 (97 :: nat), [97]] \<and>
        isl (tts_generate ?ev (Suc 0) ([replicate 3000 97, [97]] ! Suc 0))"
    by (simp add: test_env_def)
  then have f: "\<exists>i<length [replicate 3000 (97 :: nat), [97]].
        isl (tts_generate ?ev i ([replicate 3000 97, [97]] ! i))" by blast
  have s: "strip ?g = ?g" by (intro strip_id) (simp_all add: isspace_def)
  have u: "\<not> isl (tts_generate ?ev 0 (replicate 3000 97))" by (simp add: test_env_def)
  show ?thesis
    using synthesis_failure_discards_audio [OF r t g c f] u
    by (simp add: s strip_hello empty_world_history)
qed


lemma chunk_text_7000:
  assumes "length g = 7000"
  shows "chunk_text g 3000 = Inr [take 3000 g, take 3000 (drop 3000 g), drop 6000 g]"
proof -
  have "range_len (length g) 3000 = 3" using assms by (simp add: range_len_def)
  then have "chunk_text g 3000 = Inr (map (\<lambda>k. take 3000 (drop (k * 3000) g)) [0, Suc 0, 2])"
    using chunk_text_3000 [of g] by (simp only: upt_0_3)
  moreover have "take 3000 (drop 6000 g) = drop 6000 g" using assms by simp
  ultimately show ?thesis by simp
qed

lemma tts_step_three:
  assumes "chunk_text g 3000 = Inr [c0, c1, c2]"
    and "tts_generate ev 0 c0 = Inr u0"
    and "tts_generate ev (Suc 0) c1 = Inr u1"
    and "tts_generate ev (Suc (Suc 0)) c2 = Inr u2"
  shows "tts_step ev (PStr g) w = ([u0, u1, u2], w\<lparr>tts_calls := tts_calls w @ [c0, c1, c2]\<rparr>)"
  using assms by (simp add: tts_step_def Let_def)

text \<open>
  Claim C8. When the reply is a string of exactly 7000 characters, its chunks are three,
  of 3000, 3000 and 1000 characters; when the three synthesis calls on them succeed, the
  synthesiser has been called exactly three times, on these chunks in this order, and
  \<open>audio_urls\<close> holds the three audio references in the same order.
\<close>

theorem seven_thousand_three_calls:
  assumes r: "resolve_text ev sid req w = Inr (PStr t)" and t: "t \<noteq> []"
    and g: "fst (llm_step ev sid (snd (append_to_history sid (str ''user'') (PStr t) w))) = PStr g"
    and len: "length g = 7000"
    and u0: "tts_generate ev 0 (take 3000 g) = Inr u0"
    and u1: "tts_generate ev 1 (take 3000 (drop 3000 g)) = Inr u1"
    and u2: "tts_generate ev 2 (drop 6000 g) = Inr u2"
  shows "\<exists>resp w'. agent_chat ev sid req w = (Inr resp, w') \<and>
           chunk_text g 3000 = Inr [take 3000 g, take 3000 (drop 3000 g), drop 6000 g] \<and>
           length (take 3000 g) = 3000 \<and> length (take 3000 (drop 3000 g)) = 3000 \<and>
           length (drop 6000 g) = 1000 \<and>
           tts_calls w' = tts_calls w @ [take 3000 g, take 3000 (drop 3000 g), drop 6000 g] \<and>
           audio_urls resp = [u0, u1, u2] \<and> length (audio_urls resp) = 3"
proof -
  obtain w3 where tc: "tts_calls w3 = tts_calls w"
    and a: "agent_chat ev sid req w =
       (Inr \<lparr>success = True, gemini_text = PStr g,
             audio_urls = fst (tts_step ev (PStr g) w3),
             history = get_chat_history sid w @
               [\<lparr>role = str ''user'', content = strip t\<rparr>,
                \<lparr>role = str ''assistant'', content = strip g\<rparr>]\<rparr>,
        snd (tts_step ev (PStr g) w3))"
    using agent_chat_reply [OF r t g] by blast
  have c: "chunk_text g 3000 = Inr [take 3000 g, take 3000 (drop 3000 g), drop 6000 g]"
    by (rule chunk_text_7000 [OF len])
  have u1': "tts_generate ev (Suc 0) (take 3000 (drop 3000 g)) = Inr u1" using u1 by simp
  have u2': "tts_generate ev (Suc (Suc 0)) (drop 6000 g) = Inr u2"
    using u2 by (simp add: numeral_2_eq_2)
  have ts: "tts_step ev (PStr g) w3 =
      ([u0, u1, u2], w3\<lparr>tts_calls := tts_calls w3 @ [take 3000 g, take 3000 (drop 3000 g), drop 6000 g]\<rparr>)"
    by (rule tts_step_three [OF c u0 u1' u2'])
  show ?thesis
    unfolding a ts using c len by (simp add: tc)
qed

text \<open>Claim C8 for a reply of 7000 letters and a synthesiser that succeeds three times.\<close>

theorem seven_thousand_three_calls_witness:
  "\<exists>resp w'.
     agent_chat (test_env (Inl ServiceError) (text_reply (replicate 7000 97)) 3) (str ''s1'')
       (json_request (JObj [(str ''text'', JStr (str ''Hello''))])) empty_world = (Inr resp, w') \<and>
     tts_calls w' = [replicate 3000 97, replicate 3000 97, replicate 1000 97] \<and>
     audio_urls resp = [str ''audio'' @ [48], str ''audio'' @ [49], str ''audio'' @ [50]]"
proof -
  let ?g = "replicate 7000 (97 :: nat)"
  let ?ev = "test_env (Inl ServiceError) (text_reply ?g) 3"
  let ?req = "json_request (JObj [(str ''text'', JStr (str ''Hello''))])"
  have r: "resolve_text ?ev (str ''s1'') ?req empty_world = Inr (PStr (str ''Hello''))"
    by (simp only: resolve_text_json_text strip_hello)
  have t: "str ''Hello'' \<noteq> []" by (simp add: str_def)
  have "?g \<noteq> []" by simp
  then have g: "fst (llm_step ?ev (str ''s1'')
                  (snd (append_to_history (str ''s1'') (str ''user'') (PStr (str ''Hello'')) empty_world))) =
                PStr ?g"
    by (rule llm_step_text_reply)
  have len: "length ?g = 7000" by simp
  have u0: "tts_generate ?ev 0 (take 3000 ?g) = Inr (str ''audio'' @ [48])"
    by (simp add: test_env_def)
  have u1: "tts_generate ?ev 1 (take 3000 (drop 3000 ?g)) = Inr (str ''audio'' @ [49])"
    by (simp add: test_env_def)
  have u2: "tts_generate ?ev 2 (drop 6000 ?g) = Inr (str ''audio'' @ [50])"
    by (simp add: test_env_def)
  have e: "tts_calls empty_world = []" by (simp add: empty_world_def)
  show ?thesis
    using seven_thousand_three_calls [OF r t g len u0 u1 u2] by (auto simp: e)
qed


lemma join_Cons: "ys \<noteq> [] \<Longrightarrow> join sep (x # ys) = x @ sep @ join sep ys"
  by (cases ys) simp_all

lemma join_append:
  "xs \<noteq> [] \<Longrightarrow> ys \<noteq> [] \<Longrightarrow> join sep (xs @ ys) = join sep xs @ sep @ join sep ys"
proof (induction xs)
  case Nil
  then show ?case by simp
next
  case (Cons x xs)
  show ?case
  proof (cases "xs = []")
    case True
    then show ?thesis using Cons.prems by (simp add: join_Cons)
  next
    case False
    then show ?thesis using Cons by (simp add: join_Cons)
  qed
qed

lemma build_prompt_lines:
  assumes "h \<noteq> []"
  shows "build_prompt h =
     join nl ([[], str ''You are a friendly AI voice assistant.'',
               str ''Continue the conversation naturally based on the following history:'', []] @
              map render_turn h @ [[], str ''Assistant:'', []])"
proof -
  let ?A = "[[], str ''You are a friendly AI voice assistant.'',
             str ''Continue the conversation naturally based on the following history:'', []]"
  let ?B = "[[], str ''Assistant:'', []]"
  have m: "map render_turn h \<noteq> []" using assms by simp
  have "join nl (?A @ map render_turn h @ ?B) =
        join nl ?A @ nl @ join nl (map render_turn h) @ nl @ join nl ?B"
    using m by (simp only: join_append [of ?A] join_append [of "map render_turn h" ?B]
        append_is_Nil_conv list.distinct not_False_eq_True simp_thms append_assoc)
  moreover have "join nl ?A @ nl = persona_text" by (simp add: persona_text_def)
  moreover have "nl @ join nl ?B = cue_text" by (simp add: cue_text_def)
  ultimately show ?thesis by (simp add: build_prompt_def)
qed

lemma render_turn_line:
  "render_turn m = (if role m = str ''user'' then str ''User: '' else str ''Assistant: '') @ content m"
  by (simp add: render_turn_def str_def)

lemma agent_chat_llm_calls:
  assumes r: "resolve_text ev sid req w = Inr (PStr t)" and t: "t \<noteq> []"
  shows "llm_calls (snd (agent_chat ev sid req w)) = llm_calls w @
     [build_prompt (get_chat_history sid w @ [\<lparr>role = str ''user'', content = strip t\<rparr>])]"
proof (cases "fst (llm_step ev sid (snd (append_to_history sid (str ''user'') (PStr t) w)))")
  case PNone
  then show ?thesis using agent_chat_reply_none [OF r t] by auto
next
  case (PStr g)
  then obtain w3 where l: "llm_calls w3 = llm_calls w @
        [build_prompt (get_chat_history sid w @ [\<lparr>role = str ''user'', content = strip t\<rparr>])]"
    and a: "snd (agent_chat ev sid req w) = snd (tts_step ev (PStr g) w3)"
    using agent_chat_reply [OF r t] by fastforce
  show ?thesis unfolding a using tts_step_frame [of ev "PStr g" w3] l by simp
qed

text \<open>
  Claim C7. When the request resolves to a non-empty text, the handler calls the language
  model exactly once, with the prompt built from the whole history of the session followed
  by the user turn just appended. That prompt is a single string: joined by newlines, an
  empty line, the two lines of the persona, an empty line, one entry per turn of the
  history in order, an empty line, the cue \<^verbatim>\<open>Assistant:\<close> and a final empty line. The entry
  of a turn is \<^verbatim>\<open>User: \<close> or \<^verbatim>\<open>Assistant: \<close> followed by its content, none is dropped, and the
  last one is the user turn of this call.
\<close>

theorem prompt_lists_whole_history:
  assumes r: "resolve_text ev sid req w = Inr (PStr t)" and t: "t \<noteq> []"
  shows "(let h = get_chat_history sid w @ [\<lparr>role = str ''user'', content = strip t\<rparr>] in
      llm_calls (snd (agent_chat ev sid req w)) = llm_calls w @ [build_prompt h] \<and>
      build_prompt h =
        join nl ([[], str ''You are a friendly AI voice assistant.'',
                  str ''Continue the conversation naturally based on the following history:'', []] @
                 map render_turn h @ [[], str ''Assistant:'', []]) \<and>
      length (map render_turn h) = length h \<and>
      (\<forall>i<length h. map render_turn h ! i =
          (if role (h ! i) = str ''user'' then str ''User: '' else str ''Assistant: '') @
          content (h ! i)) \<and>
      last (map render_turn h) = str ''User: '' @ strip t)"
proof -
  let ?h = "get_chat_history sid w @ [\<lparr>role = str ''user'', content = strip t\<rparr>]"
  have 1: "llm_calls (snd (agent_chat ev sid req w)) = llm_calls w @ [build_prompt ?h]"
    by (rule agent_chat_llm_calls [OF r t])
  have 2: "build_prompt ?h =
        join nl ([[], str ''You are a friendly AI voice assistant.'',
                  str ''Continue the conversation naturally based on the following history:'', []] @
                 map render_turn ?h @ [[], str ''Assistant:'', []])"
    by (rule build_prompt_lines) simp
  have 3: "\<forall>i<length ?h. map render_turn ?h ! i =
          (if role (?h ! i) = str ''user'' then str ''User: '' else str ''Assistant: '') @
          content (?h ! i)"
  proof (intro allI impI)
    fix i assume "i < length ?h"
    then have "map render_turn ?h ! i = render_turn (?h ! i)" by (rule nth_map)
    then show "map render_turn ?h ! i =
          (if role (?h ! i) = str ''user'' then str ''User: '' else str ''Assistant: '') @
          content (?h ! i)"
      by (simp only: render_turn_line)
  qed
  have 4: "last (map render_turn ?h) = str ''User: '' @ strip t"
    by (simp add: render_turn_line)
  show ?thesis
    unfolding Let_def using 1 2 3 4 by simp
qed


text \<open>
  Claim C7 for \<^verbatim>\<open>{"text": "Hello"}\<close> on a session that already holds a user turn and an
  assistant turn.
\<close>

theorem prompt_lists_whole_history_witness:
  "llm_calls (snd (agent_chat (test_env (Inl ServiceError) (text_reply (str ''ok'')) 1) (str ''s1'')
       (json_request (JObj [(str ''text'', JStr (str ''Hello''))]))
       (append_all [(str ''s1'', str ''user'', str ''Hi''),
                    (str ''s1'', str ''assistant'', str ''Hey'')] empty_world))) =
     [persona_text @ str ''User: Hi'' @ nl @ str ''Assistant: Hey'' @ nl @ str ''User: Hello'' @
      cue_text]"
proof -
  let ?ev = "test_env (Inl ServiceError) (text_reply (str ''ok'')) 1"
  let ?req = "json_request (JObj [(str ''text'', JStr (str ''Hello''))])"
  define w0 where "w0 = append_all [(str ''s1'', str ''user'', str ''Hi''),
                        (str ''s1'', str ''assistant'', str ''Hey'')] empty_world"
  have r: "resolve_text ?ev (str ''s1'') ?req w0 = Inr (PStr (str ''Hello''))"
    by (simp only: resolve_text_json_text strip_hello)
  have t: "str ''Hello'' \<noteq> []" by (simp add: str_def)
  have s1: "strip (str ''Hi'') = str ''Hi''"
    by (simp add: strip_def rstrip_def lstrip_def isspace_def str_def)
  have s2: "strip (str ''Hey'') = str ''Hey''"
    by (simp add: strip_def rstrip_def lstrip_def isspace_def str_def)
  have h: "get_chat_history (str ''s1'') w0 =
      [\<lparr>role = str ''user'', content = str ''Hi''\<rparr>,
       \<lparr>role = str ''assistant'', content = str ''Hey''\<rparr>]"
    unfolding w0_def
    by (simp only: get_chat_history_append_all) (simp add: empty_world_history s1 s2)
  have l: "llm_calls w0 = []"
    unfolding w0_def by (simp add: append_to_history_str empty_world_def)
  have d: "str ''assistant'' \<noteq> str ''user''" by (simp add: str_def)
  have p: "build_prompt
      [\<lparr>role = str ''user'', content = str ''Hi''\<rparr>,
       \<lparr>role = str ''assistant'', content = str ''Hey''\<rparr>,
       \<lparr>role = str ''user'', content = str ''Hello''\<rparr>] =
     persona_text @ str ''User: Hi'' @ nl @ str ''Assistant: Hey'' @ nl @ str ''User: Hello'' @
      cue_text"
    by (simp add: build_prompt_def render_turn_line d) (simp add: str_def)
  have "llm_calls (snd (agent_chat ?ev (str ''s1'') ?req w0)) =
     [persona_text @ str ''User: Hi'' @ nl @ str ''Assistant: Hey'' @ nl @ str ''User: Hello'' @
      cue_text]"
    using prompt_lists_whole_history [OF r t] unfolding Let_def h l strip_hello
    by (simp add: p)
  then show ?thesis unfolding w0_def .
qed

end
